theory Spec2Isabelle
  imports Complex_Main
begin

section \<open>The action-queue push module (src/controllers/action-queue/push.js)\<close>

text \<open>
  The module turns the effects of a dry-run of an action program into push events for the
  push server. Its functions are asynchronous; the embedding below gives each of them the
  value its promise settles with: \<open>Inr v\<close> when the promise is fulfilled with \<open>v\<close> and
  \<open>Inl (Error msg)\<close> when it is rejected (a \<open>throw new Error(msg)\<close>, or a rejection of a
  collaborator).
\<close>

subsection \<open>Errors and strings\<close>

datatype error = Error string

text \<open>
  A template literal renders a number with \<open>Number::toString\<close>. The numbers rendered in
  this module are an operation index and an HTTP status, both non-negative integers, whose
  rendering is the decimal numeral.
\<close>

definition digit :: "nat \<Rightarrow> char" where
  "digit d = ''0123456789'' ! d"

fun numberToString :: "nat \<Rightarrow> string" where
  "numberToString n =
     (if n < 10 then [digit n] else numberToString (n div 10) @ [digit (n mod 10)])"

declare numberToString.simps [simp del]

text \<open>\<open>Array.prototype.join\<close> on an array of strings.\<close>

fun join :: "string \<Rightarrow> string list \<Rightarrow> string" where
  "join sep [] = []"
| "join sep [x] = x"
| "join sep (x # y # ys) = x @ sep @ join sep (y # ys)"

subsection \<open>The effect model (types.js) and the push triggers (types/pushTypes.js)\<close>

text \<open>
  Modelled from the spec: the declarations of \<open>ActionEffect\<close> (types.js) and of
  \<open>PushTrigger\<close> (types/pushTypes.js) are not among the sources. The variants and their
  fields are those of the spec's data model, which are also the fields push.js reads.
  \<open>ActionEffect\<close> is a union discriminated by its \<open>type\<close> field; \<open>childEffect\<close> and the
  elements of \<open>childEffects\<close> may be \<open>null\<close>, and the amounts, the rates and the token id
  are optional. An \<open>opIndex\<close> and a number of confirmations are non-negative integers; a
  rate is a number the module only passes on. The union is closed, so the \<open>default\<close>
  branch of the converter's \<open>switch\<close> (the exhaustiveness check) has no value to run on.
\<close>

datatype ActionEffect =
    Seq nat "ActionEffect option"
      \<comment> \<open>opIndex, childEffect\<close>
  | Par "ActionEffect option list"
      \<comment> \<open>childEffects\<close>
  | AddressBalance string string "string option" "string option" "string option"
      \<comment> \<open>address, walletId, tokenId, aboveAmount, belowAmount\<close>
  | PriceLevel string "real option" "real option"
      \<comment> \<open>currencyPair, aboveRate, belowRate\<close>
  | TxConfs nat string string
      \<comment> \<open>confirmations, walletId, txId\<close>
  | Done
  | Noop
  | PushEvents
  | Unixtime

text \<open>The \<open>type\<close> field of an effect.\<close>

fun effect_type :: "ActionEffect \<Rightarrow> string" where
  "effect_type (Seq _ _) = ''seq''"
| "effect_type (Par _) = ''par''"
| "effect_type (AddressBalance _ _ _ _ _) = ''address-balance''"
| "effect_type (PriceLevel _ _ _) = ''price-level''"
| "effect_type (TxConfs _ _ _) = ''tx-confs''"
| "effect_type Done = ''done''"
| "effect_type Noop = ''noop''"
| "effect_type PushEvents = ''push-events''"
| "effect_type Unixtime = ''unixtime''"

datatype PushTrigger =
    AddressBalanceTrigger string "string option" string "string option" "string option"
      \<comment> \<open>type 'address-balance': pluginId, tokenId, address, aboveAmount, belowAmount\<close>
  | PriceLevelTrigger string "real option" "real option"
      \<comment> \<open>type 'price-level': currencyPair, aboveRate, belowRate\<close>
  | TxConfirmTrigger string nat string
      \<comment> \<open>type 'tx-confirm': pluginId, confirmations, txid\<close>

fun trigger_type :: "PushTrigger \<Rightarrow> string" where
  "trigger_type (AddressBalanceTrigger _ _ _ _ _) = ''address-balance''"
| "trigger_type (PriceLevelTrigger _ _ _) = ''price-level''"
| "trigger_type (TxConfirmTrigger _ _ _) = ''tx-confirm''"

subsection \<open>The account and its wallets (edge-core-js)\<close>

text \<open>
  The converter reads \<open>wallet.currencyInfo.pluginId\<close>, the event assembler reads
  \<open>wallet.currencyConfig.currencyInfo.pluginId\<close>. \<open>waitForCurrencyWallet\<close> is a
  collaborator whose promise may be rejected.
\<close>

record EdgeCurrencyInfo =
  pluginId :: string

record EdgeCurrencyConfig =
  config_currencyInfo :: EdgeCurrencyInfo

record EdgeCurrencyWallet =
  currencyInfo :: EdgeCurrencyInfo
  currencyConfig :: EdgeCurrencyConfig

record EdgeAccount =
  rootLoginId :: string
  waitForCurrencyWallet :: "string \<Rightarrow> error + EdgeCurrencyWallet"

subsection \<open>getCallStackId\<close>

definition CALLSTACK_NULL_EFFECT :: string where
  "CALLSTACK_NULL_EFFECT =
     ''Unexpected null effect while converting to CallStackId. '' @
     ''This could be caused by a partial dryrun not properly short-circuiting.''"

text \<open>
  \<open>childCallStackIds\<close> is the \<open>.map\<close> over \<open>effect.childEffects\<close>: it visits the children
  in order and the first \<open>throw\<close> ends it.
\<close>

fun getCallStackId :: "ActionEffect \<Rightarrow> error + string"
  and childCallStackIds :: "ActionEffect option list \<Rightarrow> error + string list" where
  "getCallStackId (Seq opIndex childEffect) = Inr (''seq_'' @ numberToString opIndex)"
| "getCallStackId (Par childEffects) =
     (case childCallStackIds childEffects of
        Inl e \<Rightarrow> Inl e
      | Inr ids \<Rightarrow> Inr (''par_'' @ join ''_'' ids))"
| "getCallStackId effect = Inr (effect_type effect)"
| "childCallStackIds [] = Inr []"
| "childCallStackIds (None # rest) = Inl (Error CALLSTACK_NULL_EFFECT)"
| "childCallStackIds (Some childEffect # rest) =
     (case getCallStackId childEffect of
        Inl e \<Rightarrow> Inl e
      | Inr callStackId \<Rightarrow>
          (case childCallStackIds rest of
             Inl e \<Rightarrow> Inl e
           | Inr ids \<Rightarrow> Inr (callStackId # ids)))"

subsection \<open>actionEffectToPushTrigger\<close>

definition TRIGGER_NULL_EFFECT :: string where
  "TRIGGER_NULL_EFFECT =
     ''Unexpected null effect while converting to PushTrigger. '' @
     ''This could be caused by a partial dryrun not properly short-circuiting.''"

text \<open>The result \<open>Inr None\<close> is the \<open>return\<close> without a value.\<close>

fun actionEffectToPushTrigger :: "EdgeAccount \<Rightarrow> ActionEffect \<Rightarrow> error + PushTrigger option" where
  "actionEffectToPushTrigger account (Seq opIndex None) = Inl (Error TRIGGER_NULL_EFFECT)"
| "actionEffectToPushTrigger account (Seq opIndex (Some childEffect)) =
     actionEffectToPushTrigger account childEffect"
| "actionEffectToPushTrigger account (AddressBalance address walletId tokenId aboveAmount belowAmount) =
     (case waitForCurrencyWallet account walletId of
        Inl e \<Rightarrow> Inl e
      | Inr wallet \<Rightarrow>
          Inr (Some (AddressBalanceTrigger (pluginId (currencyInfo wallet)) tokenId address
                       aboveAmount belowAmount)))"
| "actionEffectToPushTrigger account (PriceLevel currencyPair aboveRate belowRate) =
     Inr (Some (PriceLevelTrigger currencyPair aboveRate belowRate))"
| "actionEffectToPushTrigger account (TxConfs confirmations walletId txId) =
     (case waitForCurrencyWallet account walletId of
        Inl e \<Rightarrow> Inl e
      | Inr wallet \<Rightarrow>
          Inr (Some (TxConfirmTrigger (pluginId (currencyInfo wallet)) confirmations txId)))"
| "actionEffectToPushTrigger account Done = Inr None"
| "actionEffectToPushTrigger account Noop = Inr None"
| "actionEffectToPushTrigger account (Par childEffects) = Inr None"
| "actionEffectToPushTrigger account PushEvents = Inr None"
| "actionEffectToPushTrigger account Unixtime = Inr None"

definition effectCanBeATrigger :: "EdgeAccount \<Rightarrow> ActionEffect \<Rightarrow> error + bool" where
  "effectCanBeATrigger account effect =
     (case actionEffectToPushTrigger account effect of
        Inl e \<Rightarrow> Inl e
      | Inr trigger \<Rightarrow> Inr (trigger \<noteq> None))"

subsection \<open>What the module imports\<close>

text \<open>
  Modelled from the spec: the declarations of the push events (types/pushTypes.js) and of the
  payloads of the push server (types/pushApiTypes.js) are not among the sources; their fields
  are those of the spec's data model and wire contract, and of the object literals of push.js.
  The shape of a cleaned error response is not read by the module; it is a string here.

  The cleaners (\<open>asHex\<close>, \<open>asBase64\<close>, \<open>asLoginPayload\<close>, \<open>asErrorResponse\<close>), the locale
  strings, the environment and \<open>fetch\<close> are not part of the module. They are parameters
  here: a cleaner returns the cleaned value or throws, \<open>fetch\<close> is fulfilled with a response
  or rejected. A response is a received HTTP response: its status and its body text, the text
  \<open>response.text()\<close> gives and \<open>response.json()\<close> parses. \<open>asLoginPayload\<close> stands for
  \<open>response.json()\<close> followed by the cleaner.
\<close>

record PushMessage =
  title :: string
  body :: string

datatype BroadcastTx = BroadcastTx string string
  \<comment> \<open>pluginId, rawTx\<close>

record NewPushEvent =
  eventId :: string
  broadcastTxs :: "BroadcastTx list"
  pushMessage :: "PushMessage option"
  recurring :: bool
  trigger :: PushTrigger

datatype EventStatus = EventStatus string string
  \<comment> \<open>eventId, state\<close>

fun status_eventId :: "EventStatus \<Rightarrow> string" where
  "status_eventId (EventStatus i s) = i"

fun state :: "EventStatus \<Rightarrow> string" where
  "state (EventStatus i s) = s"

record LoginPayload =
  events :: "EventStatus list"

datatype LoginUpdatePayload = LoginUpdatePayload "NewPushEvent list" "string list"
  \<comment> \<open>createEvents, removeEvents\<close>

datatype PushRequestBody = PushRequestBody string string string "LoginUpdatePayload option"
  \<comment> \<open>apiKey, deviceId, loginId, data\<close>

record Response =
  ok :: bool
  status :: nat
  text_body :: string

type_synonym ErrorResponse = string

record Strings =
  action_queue_push_notification_title :: string
  action_queue_push_notification_body :: string

record Imports =
  asHex :: "string \<Rightarrow> error + string"
  asBase64 :: "string \<Rightarrow> error + string"
  asLoginPayload :: "string \<Rightarrow> error + LoginPayload"
  asErrorResponse :: "string \<Rightarrow> error + ErrorResponse"
  strings :: Strings
  pushServerUri :: string
  AIRBITZ_API_KEY :: string
  deviceId :: string
  fetch :: "string \<Rightarrow> PushRequestBody \<Rightarrow> error + Response"

text \<open>\<open>asMaybe\<close> of the cleaners library: the cleaned value, or \<open>undefined\<close> when the cleaner throws.\<close>

definition asMaybe :: "('a \<Rightarrow> error + 'b) \<Rightarrow> 'a \<Rightarrow> 'b option" where
  "asMaybe cleaner raw = (case cleaner raw of Inl e \<Rightarrow> None | Inr v \<Rightarrow> Some v)"

subsection \<open>Promise.all\<close>

text \<open>
  \<open>Promise.all\<close> is fulfilled with the values in the order of its input when every promise
  is fulfilled, and rejected with the reason of the promise that is rejected first otherwise.
  Which one is first depends on when the collaborators settle; the parameter \<open>first\<close> stands
  for that: it chooses among the rejections, and every theorem below holds for every choice.
\<close>

definition promise_all :: "(error list \<Rightarrow> nat) \<Rightarrow> (error + 'a) list \<Rightarrow> error + 'a list" where
  "promise_all first settled =
     (let reasons = [e. Inl e \<leftarrow> settled]
      in if reasons = [] then Inr [v. Inr v \<leftarrow> settled]
         else Inl (reasons ! (first reasons mod length reasons)))"

subsection \<open>prepareNewPushEvents\<close>

record EdgeTransaction =
  signedTx :: string

record ExecutionTx =
  walletId :: string
  tx :: EdgeTransaction

record ExecutionOutput =
  effect :: ActionEffect
  output_broadcastTxs :: "ExecutionTx list"

record ActionProgram =
  programId :: string

text \<open>The callback of the inner \<open>map\<close>: one signed transaction of a step.\<close>

definition broadcastTxOf :: "Imports \<Rightarrow> EdgeAccount \<Rightarrow> ExecutionTx \<Rightarrow> error + BroadcastTx" where
  "broadcastTxOf imports account executionTx =
     (case waitForCurrencyWallet account (walletId executionTx) of
        Inl e \<Rightarrow> Inl e
      | Inr wallet \<Rightarrow>
          (case asHex imports (signedTx (tx executionTx)) of
             Inl e \<Rightarrow> Inl e
           | Inr rawTx \<Rightarrow>
               Inr (BroadcastTx (pluginId (config_currencyInfo (currencyConfig wallet))) rawTx)))"

definition prevEffectOf :: "ActionEffect \<Rightarrow> ExecutionOutput list \<Rightarrow> nat \<Rightarrow> ActionEffect" where
  "prevEffectOf initEffect dryrunOutputs index =
     (if index > 0 then effect (dryrunOutputs ! (index - 1)) else initEffect)"

definition unsupportedEffect :: "ActionEffect \<Rightarrow> error" where
  "unsupportedEffect prevEffect =
     Error (''Unsupported effect type '' @ effect_type prevEffect @ '' in conversion to PushTrigger'')"

text \<open>
  The callback of the outer \<open>map\<close>: the push event of the step at \<open>index\<close>. The statements
  run in the order of the source: the call-stack id, the transactions, then the trigger.
  \<open>race (Suc index)\<close> settles the inner \<open>Promise.all\<close> of the step, \<open>race 0\<close> the outer one.
\<close>

definition pushEventOf ::
  "(nat \<Rightarrow> error list \<Rightarrow> nat) \<Rightarrow> Imports \<Rightarrow> EdgeAccount \<Rightarrow> ActionProgram \<Rightarrow> ActionEffect \<Rightarrow>
     ExecutionOutput list \<Rightarrow> ExecutionOutput \<Rightarrow> nat \<Rightarrow> error + NewPushEvent" where
  "pushEventOf race imports account program initEffect dryrunOutputs output index =
     (let prevEffect = prevEffectOf initEffect dryrunOutputs index
      in case getCallStackId (effect output) of
           Inl e \<Rightarrow> Inl e
         | Inr callStackId \<Rightarrow>
             (case promise_all (race (Suc index))
                     (map (broadcastTxOf imports account) (output_broadcastTxs output)) of
                Inl e \<Rightarrow> Inl e
              | Inr txs \<Rightarrow>
                  (case actionEffectToPushTrigger account prevEffect of
                     Inl e \<Rightarrow> Inl e
                   | Inr None \<Rightarrow> Inl (unsupportedEffect prevEffect)
                   | Inr (Some t) \<Rightarrow>
                       Inr \<lparr> eventId = programId program @ '':'' @ callStackId,
                             broadcastTxs = txs,
                             pushMessage =
                               (if index = length dryrunOutputs - 1
                                then Some \<lparr> title = action_queue_push_notification_title (strings imports),
                                            body = action_queue_push_notification_body (strings imports) \<rparr>
                                else None),
                             recurring = False,
                             trigger = t \<rparr>)))"

definition prepareNewPushEvents ::
  "(nat \<Rightarrow> error list \<Rightarrow> nat) \<Rightarrow> Imports \<Rightarrow> EdgeAccount \<Rightarrow> ActionProgram \<Rightarrow> ActionEffect \<Rightarrow>
     ExecutionOutput list \<Rightarrow> error + NewPushEvent list" where
  "prepareNewPushEvents race imports account program initEffect dryrunOutputs =
     promise_all (race 0)
       (map (\<lambda>(index, output).
               pushEventOf race imports account program initEffect dryrunOutputs output index)
            (enumerate 0 dryrunOutputs))"

subsection \<open>checkPushEvents and uploadPushEvents\<close>

definition requestFailed :: "Response \<Rightarrow> error" where
  "requestFailed response = Error (''Request failed with '' @ numberToString (status response))"

text \<open>
  The \<open>reduce\<close> that builds the status map: a later status of an event id replaces an earlier
  one. A key the response does not have reads as \<open>undefined\<close>, or as an inherited property of
  the object, which has no \<open>state\<close>; both make the test of \<open>every\<close> false.
\<close>

definition eventStatusMap :: "EventStatus list \<Rightarrow> (string \<rightharpoonup> EventStatus)" where
  "eventStatusMap evs = foldl (\<lambda>m eventStatus. m(status_eventId eventStatus \<mapsto> eventStatus)) Map.empty evs"

definition isEffective :: "(string \<rightharpoonup> EventStatus) \<Rightarrow> string list \<Rightarrow> bool" where
  "isEffective m eventIds =
     list_all (\<lambda>eventId.
         case m eventId of
           None \<Rightarrow> False
         | Some st \<Rightarrow> state st \<in> set [''triggered'', ''complete''])
       eventIds"

definition checkPushEvents :: "Imports \<Rightarrow> EdgeAccount \<Rightarrow> string list \<Rightarrow> error + bool" where
  "checkPushEvents imports account eventIds =
     (case asBase64 imports (rootLoginId account) of
        Inl e \<Rightarrow> Inl e
      | Inr loginId \<Rightarrow>
          (case fetch imports (pushServerUri imports @ ''/v2/login'')
                  (PushRequestBody (AIRBITZ_API_KEY imports) (deviceId imports) loginId None) of
             Inl e \<Rightarrow> Inl e
           | Inr response \<Rightarrow>
               if \<not> ok response then Inl (requestFailed response)
               else (case asLoginPayload imports (text_body response) of
                       Inl e \<Rightarrow> Inl e
                     | Inr loginPayload \<Rightarrow>
                         Inr (isEffective (eventStatusMap (events loginPayload)) eventIds))))"

text \<open>
  \<open>uploadPushEvents\<close> returns nothing; its result is the pair of what it wrote with
  \<open>console.error\<close> (the response body and its cleaned form, if any) and how it settled.
\<close>

datatype ConsoleError = FailedPushServerRequest string "ErrorResponse option"
  \<comment> \<open>responseBody, responseData\<close>

definition uploadPushEvents ::
  "Imports \<Rightarrow> EdgeAccount \<Rightarrow> NewPushEvent list \<Rightarrow> ConsoleError list \<times> (error + unit)" where
  "uploadPushEvents imports account newPushEvents =
     (case asBase64 imports (rootLoginId account) of
        Inl e \<Rightarrow> ([], Inl e)
      | Inr loginId \<Rightarrow>
          (case fetch imports (pushServerUri imports @ ''/v2/login/update'')
                  (PushRequestBody (AIRBITZ_API_KEY imports) (deviceId imports) loginId
                     (Some (LoginUpdatePayload newPushEvents []))) of
             Inl e \<Rightarrow> ([], Inl e)
           | Inr response \<Rightarrow>
               if \<not> ok response then
                 (let responseBody = text_body response;
                      responseData = asMaybe (asErrorResponse imports) responseBody
                  in ([FailedPushServerRequest responseBody responseData],
                      Inl (requestFailed response)))
               else ([], Inr ())))"

subsection \<open>Sample values\<close>

text \<open>An account with one wallet, \<open>w1\<close>, of the bitcoin plugin.\<close>

definition demo_wallet :: EdgeCurrencyWallet where
  "demo_wallet =
     \<lparr> currencyInfo = \<lparr> pluginId = ''bitcoin'' \<rparr>,
       currencyConfig = \<lparr> config_currencyInfo = \<lparr> pluginId = ''bitcoin'' \<rparr> \<rparr> \<rparr>"

definition demo_account :: EdgeAccount where
  "demo_account =
     \<lparr> rootLoginId = ''login'',
       waitForCurrencyWallet =
         (\<lambda>walletId. if walletId = ''w1'' then Inr demo_wallet
                     else Inl (Error ''wallet not found'')) \<rparr>"

text \<open>
  A run of the assembler: a schedule in which the first rejection in the order of the input
  wins, cleaners that accept what the samples hold, a push server that answers a status
  request with three events and refuses an update with status 500, and a program of three
  steps.
\<close>

definition demo_race :: "nat \<Rightarrow> error list \<Rightarrow> nat" where
  "demo_race site reasons = 0"

definition demo_imports :: Imports where
  "demo_imports =
     \<lparr> asHex = (\<lambda>raw. if raw = [] then Inl (Error ''Expected a hex string'') else Inr raw),
       asBase64 = (\<lambda>raw. Inr raw),
       asLoginPayload =
         (\<lambda>raw. if raw = ''events''
                then Inr \<lparr> events = [EventStatus ''p1:seq_1'' ''pending'',
                                       EventStatus ''p1:done'' ''complete'',
                                       EventStatus ''p1:noop'' ''pending'',
                                       EventStatus ''p1:seq_1'' ''triggered''] \<rparr>
                else Inl (Error ''Expected a login payload'')),
       asErrorResponse = (\<lambda>raw. Inl (Error ''Expected an error response'')),
       strings = \<lparr> action_queue_push_notification_title = ''Action complete'',
                   action_queue_push_notification_body = ''Your action has finished'' \<rparr>,
       pushServerUri = ''https://push.example'',
       AIRBITZ_API_KEY = ''key'',
       deviceId = ''device'',
       fetch = (\<lambda>uri request.
                  if uri = ''https://push.example/v2/login''
                  then Inr \<lparr> ok = True, status = 200, text_body = ''events'' \<rparr>
                  else Inr \<lparr> ok = False, status = 500, text_body = ''<html>'' \<rparr>) \<rparr>"

definition demo_program :: ActionProgram where
  "demo_program = \<lparr> programId = ''p1'' \<rparr>"

definition demo_tx :: ExecutionTx where
  "demo_tx = \<lparr> walletId = ''w1'', tx = \<lparr> signedTx = ''0a0b'' \<rparr> \<rparr>"

definition demo_outputs :: "ExecutionOutput list" where
  "demo_outputs =
     [\<lparr> effect = PriceLevel ''BTC_USD'' (Some 50000) None, output_broadcastTxs = [demo_tx] \<rparr>,
      \<lparr> effect = Seq 1 (Some (AddressBalance ''addr'' ''w1'' None (Some ''100'') None)),
        output_broadcastTxs = [] \<rparr>,
      \<lparr> effect = Done, output_broadcastTxs = [demo_tx] \<rparr>]"

definition demo_message :: PushMessage where
  "demo_message = \<lparr> title = ''Action complete'', body = ''Your action has finished'' \<rparr>"

definition demo_events :: "NewPushEvent list" where
  "demo_events =
     [\<lparr> eventId = ''p1:price-level'', broadcastTxs = [BroadcastTx ''bitcoin'' ''0a0b''],
        pushMessage = None, recurring = False,
        trigger = TxConfirmTrigger ''bitcoin'' 1 ''t1'' \<rparr>,
      \<lparr> eventId = ''p1:seq_1'', broadcastTxs = [],
        pushMessage = None, recurring = False,
        trigger = PriceLevelTrigger ''BTC_USD'' (Some 50000) None \<rparr>,
      \<lparr> eventId = ''p1:done'', broadcastTxs = [BroadcastTx ''bitcoin'' ''0a0b''],
        pushMessage = Some demo_message, recurring = False,
        trigger = AddressBalanceTrigger ''bitcoin'' None ''addr'' (Some ''100'') None \<rparr>]"

section \<open>Properties\<close>

subsection \<open>Identifiers: shape and failures\<close>

lemma digit_not_underscore: "d < 10 \<Longrightarrow> CHR ''_'' \<noteq> digit d"
proof -
  assume "d < 10"
  then have "d \<in> {0, 1, 2, 3, 4, 5, 6, 7, 8, 9}" by auto
  then show ?thesis by (auto simp: digit_def)
qed

lemma numberToString_no_underscore: "CHR ''_'' \<notin> set (numberToString n)"
proof (induction n rule: numberToString.induct)
  case (1 n)
  show ?case
  proof (cases "n < 10")
    case True
    then show ?thesis by (simp add: numberToString.simps [of n] digit_not_underscore)
  next
    case False
    then have "n mod 10 < 10" by simp
    with False 1 show ?thesis
      by (simp add: numberToString.simps [of n] digit_not_underscore)
  qed
qed

lemma getCallStackId_error:
  "getCallStackId e = Inl err \<Longrightarrow> err = Error CALLSTACK_NULL_EFFECT"
  and childCallStackIds_error:
  "childCallStackIds cs = Inl err \<Longrightarrow> err = Error CALLSTACK_NULL_EFFECT"
  by (induction e and cs arbitrary: err and err rule: getCallStackId_childCallStackIds.induct)
     (auto split: sum.splits)

lemma childCallStackIds_null:
  "None \<in> set cs \<Longrightarrow> childCallStackIds cs = Inl (Error CALLSTACK_NULL_EFFECT)"
proof (induction cs)
  case Nil
  then show ?case by simp
next
  case (Cons c cs)
  show ?case
  proof (cases c)
    case None
    then show ?thesis by simp
  next
    case (Some e)
    with Cons have "childCallStackIds cs = Inl (Error CALLSTACK_NULL_EFFECT)" by simp
    with Some show ?thesis
      using getCallStackId_error [of e]
      by (auto split: sum.splits)
  qed
qed

lemma childCallStackIds_ids:
  "list_all2 (\<lambda>c i. \<exists>e. c = Some e \<and> getCallStackId e = Inr i) cs ids \<Longrightarrow>
   childCallStackIds cs = Inr ids"
  by (induction cs ids rule: list_all2_induct) auto

subsection \<open>The trigger converter\<close>

text \<open>
  C1. An \<open>address-balance\<close>, \<open>price-level\<close> or \<open>tx-confs\<close> effect converts to a trigger
  that carries the effect's fields unchanged (a \<open>tx-confs\<close> effect gives a \<open>tx-confirm\<close>
  trigger whose \<open>txid\<close> is the effect's \<open>txId\<close>), with the plugin id of the wallet that
  \<open>waitForCurrencyWallet\<close> resolved; a \<open>done\<close>, \<open>noop\<close>, \<open>par\<close>, \<open>push-events\<close> or
  \<open>unixtime\<close> effect converts to nothing.
\<close>

theorem actionEffectToPushTrigger_by_type:
  "(waitForCurrencyWallet account wid = Inr wallet \<longrightarrow>
      actionEffectToPushTrigger account (AddressBalance address wid tokenId aboveAmount belowAmount) =
        Inr (Some (AddressBalanceTrigger (pluginId (currencyInfo wallet)) tokenId address
                     aboveAmount belowAmount))) \<and>
   actionEffectToPushTrigger account (PriceLevel currencyPair aboveRate belowRate) =
     Inr (Some (PriceLevelTrigger currencyPair aboveRate belowRate)) \<and>
   (waitForCurrencyWallet account wid = Inr wallet \<longrightarrow>
      actionEffectToPushTrigger account (TxConfs confirmations wid txId) =
        Inr (Some (TxConfirmTrigger (pluginId (currencyInfo wallet)) confirmations txId)) \<and>
      trigger_type (TxConfirmTrigger (pluginId (currencyInfo wallet)) confirmations txId) =
        ''tx-confirm'') \<and>
   (effect_type eff \<in> {''done'', ''noop'', ''par'', ''push-events'', ''unixtime''} \<longrightarrow>
      actionEffectToPushTrigger account eff = Inr None)"
  by (cases eff) simp_all

theorem actionEffectToPushTrigger_by_type_witness:
  "waitForCurrencyWallet demo_account ''w1'' = Inr demo_wallet \<and>
   actionEffectToPushTrigger demo_account
       (AddressBalance ''addr'' ''w1'' (Some ''tok'') (Some ''100'') None) =
     Inr (Some (AddressBalanceTrigger ''bitcoin'' (Some ''tok'') ''addr'' (Some ''100'') None)) \<and>
   actionEffectToPushTrigger demo_account (TxConfs 1 ''w1'' ''t1'') =
     Inr (Some (TxConfirmTrigger ''bitcoin'' 1 ''t1'')) \<and>
   effect_type (Par [None]) \<in> {''done'', ''noop'', ''par'', ''push-events'', ''unixtime''} \<and>
   actionEffectToPushTrigger demo_account (Par [None]) = Inr None"
  using actionEffectToPushTrigger_by_type
    [of demo_account "''w1''" demo_wallet "''addr''" "Some ''tok''" "Some ''100''" None
        "''p''" None None 1 "''t1''" "Par [None]"]
  by (simp add: demo_account_def demo_wallet_def)

text \<open>
  C2. The conversion of a \<open>seq\<close> effect is the conversion of its child; a \<open>seq\<close> effect
  whose child is \<open>null\<close> is an error, the one of the partial dry-run, and not the empty result.
\<close>

theorem actionEffectToPushTrigger_seq:
  "actionEffectToPushTrigger account (Seq opIndex (Some childEffect)) =
     actionEffectToPushTrigger account childEffect \<and>
   actionEffectToPushTrigger account (Seq opIndex None) = Inl (Error TRIGGER_NULL_EFFECT) \<and>
   actionEffectToPushTrigger account (Seq opIndex None) \<noteq> Inr None"
  by simp

subsection \<open>The call-stack identifier\<close>

text \<open>
  C3. The identifier of a \<open>seq\<close> effect is \<open>seq_\<close> followed by its \<open>opIndex\<close>; the one of a
  \<open>par\<close> effect is \<open>par_\<close> followed by the identifiers of its children, in their order,
  joined with \<open>_\<close>, and it is the null-effect error when a child is \<open>null\<close>; the one of any
  other effect is its type.
\<close>

theorem getCallStackId_by_type:
  "getCallStackId (Seq opIndex childEffect) = Inr (''seq_'' @ numberToString opIndex) \<and>
   (list_all2 (\<lambda>child callStackId. \<exists>e. child = Some e \<and> getCallStackId e = Inr callStackId)
        childEffects ids \<longrightarrow>
      getCallStackId (Par childEffects) = Inr (''par_'' @ join ''_'' ids)) \<and>
   (None \<in> set childEffects \<longrightarrow>
      getCallStackId (Par childEffects) = Inl (Error CALLSTACK_NULL_EFFECT)) \<and>
   (effect_type eff \<notin> {''seq'', ''par''} \<longrightarrow> getCallStackId eff = Inr (effect_type eff))"
proof -
  have other: "effect_type eff \<notin> {''seq'', ''par''} \<longrightarrow>
      getCallStackId eff = Inr (effect_type eff)"
    by (cases eff) simp_all
  show ?thesis
    using other by (simp add: childCallStackIds_ids childCallStackIds_null)
qed

theorem getCallStackId_by_type_witness:
  "getCallStackId (Seq 12 None) = Inr ''seq_12'' \<and>
   getCallStackId (Par [Some (TxConfs 1 ''w1'' ''t1''), Some (Seq 3 None), Some Done]) =
     Inr ''par_tx-confs_seq_3_done'' \<and>
   None \<in> set [None, Some Done] \<and>
   getCallStackId (Par [None, Some Done]) = Inl (Error CALLSTACK_NULL_EFFECT) \<and>
   effect_type (TxConfs 1 ''w1'' ''t1'') \<notin> {''seq'', ''par''} \<and>
   getCallStackId (TxConfs 1 ''w1'' ''t1'') = Inr ''tx-confs''"
  using getCallStackId_by_type
    [of 12 None "[Some (TxConfs 1 ''w1'' ''t1''), Some (Seq 3 None), Some Done]"
        "[''tx-confs'', ''seq_3'', ''done'']" "TxConfs 1 ''w1'' ''t1''"]
    getCallStackId_by_type [of 12 None "[None, Some Done]" "[]" Done]
  by (simp add: numberToString.simps digit_def)

text \<open>
  C10. The identifier is not injective: the separator of the children is the character the
  identifiers themselves contain, so \<open>par[par[done, noop]]\<close> and \<open>par[par[done], noop]\<close>
  are different effects with the identifier \<open>par_par_done_noop\<close>.
\<close>

theorem getCallStackId_not_injective:
  "Par [Some (Par [Some Done, Some Noop])] \<noteq> Par [Some (Par [Some Done]), Some Noop] \<and>
   getCallStackId (Par [Some (Par [Some Done, Some Noop])]) = Inr ''par_par_done_noop'' \<and>
   getCallStackId (Par [Some (Par [Some Done]), Some Noop]) = Inr ''par_par_done_noop'' \<and>
   (\<exists>a b. a \<noteq> b \<and> getCallStackId a = getCallStackId b)"
proof -
  have distinct: "Par [Some (Par [Some Done, Some Noop])] \<noteq> Par [Some (Par [Some Done]), Some Noop]"
    by simp
  have left: "getCallStackId (Par [Some (Par [Some Done, Some Noop])]) = Inr ''par_par_done_noop''"
    by simp
  have right: "getCallStackId (Par [Some (Par [Some Done]), Some Noop]) = Inr ''par_par_done_noop''"
    by simp
  from distinct left right
  have "\<exists>a b. a \<noteq> b \<and> getCallStackId a = getCallStackId b"
    by metis
  with distinct left right show ?thesis by blast
qed

text \<open>
  C4. The identifier is a function of the effect alone, and the identifier of \<open>par[A, B]\<close>
  holds the identifiers of \<open>A\<close> and \<open>B\<close> in that order. Swapping two children changes the
  identifier when neither is a \<open>par\<close> effect and their own identifiers differ. It does not
  for every pair of different effects: the identifier of a \<open>seq\<close> effect leaves its child
  out, so \<open>seq 0 done\<close> and \<open>seq 0 noop\<close> can be swapped without a change, and the
  identifiers of nested \<open>par\<close> effects can run together.
\<close>

lemma underscore_prefix_unique:
  "CHR ''_'' \<notin> set x \<Longrightarrow> CHR ''_'' \<notin> set y \<Longrightarrow> x @ CHR ''_'' # r = y @ CHR ''_'' # r' \<Longrightarrow> x = y"
proof (induction x arbitrary: y)
  case Nil
  then show ?case by (cases y) auto
next
  case (Cons c x)
  then show ?case by (cases y) auto
qed

lemma seq_ids_swap:
  assumes "numberToString m \<noteq> numberToString n"
  shows "numberToString m @ CHR ''_'' # r \<noteq> numberToString n @ CHR ''_'' # r'"
  using assms underscore_prefix_unique [OF numberToString_no_underscore numberToString_no_underscore]
  by blast

theorem getCallStackId_par_order:
  "(A = B \<longrightarrow> getCallStackId A = getCallStackId B) \<and>
   (getCallStackId A = Inr a \<and> getCallStackId B = Inr b \<longrightarrow>
      getCallStackId (Par [Some A, Some B]) = Inr (''par_'' @ a @ ''_'' @ b)) \<and>
   (effect_type A \<noteq> ''par'' \<and> effect_type B \<noteq> ''par'' \<and> getCallStackId A \<noteq> getCallStackId B \<longrightarrow>
      getCallStackId (Par [Some A, Some B]) \<noteq> getCallStackId (Par [Some B, Some A]))"
proof -
  have swap: "getCallStackId (Par [Some A, Some B]) \<noteq> getCallStackId (Par [Some B, Some A])"
    if "effect_type A \<noteq> ''par''" "effect_type B \<noteq> ''par''" "getCallStackId A \<noteq> getCallStackId B"
    using that by (cases A; cases B; simp add: seq_ids_swap)
  show ?thesis using swap by simp
qed

theorem getCallStackId_par_order_witness:
  "getCallStackId Done = Inr ''done'' \<and> getCallStackId (Seq 2 None) = Inr ''seq_2'' \<and>
   getCallStackId (Par [Some Done, Some (Seq 2 None)]) = Inr ''par_done_seq_2'' \<and>
   effect_type Done \<noteq> ''par'' \<and> effect_type (Seq 2 None) \<noteq> ''par'' \<and>
   getCallStackId Done \<noteq> getCallStackId (Seq 2 None) \<and>
   getCallStackId (Par [Some Done, Some (Seq 2 None)]) \<noteq>
     getCallStackId (Par [Some (Seq 2 None), Some Done])"
  using getCallStackId_par_order [of Done "Seq 2 None" "''done''" "''seq_2''"]
  by (simp add: numberToString.simps digit_def)

theorem getCallStackId_par_swap_counterexample:
  "Seq 0 (Some Done) \<noteq> Seq 0 (Some Noop) \<and>
   getCallStackId (Par [Some (Seq 0 (Some Done)), Some (Seq 0 (Some Noop))]) =
     getCallStackId (Par [Some (Seq 0 (Some Noop)), Some (Seq 0 (Some Done))])"
  by simp

lemma nested_par_swap_collision:
  "getCallStackId (Par [Some Done, Some (Par [Some Done])]) \<noteq> getCallStackId (Par [Some Done]) \<and>
   getCallStackId (Par [Some (Par [Some Done, Some (Par [Some Done])]), Some (Par [Some Done])]) =
     getCallStackId (Par [Some (Par [Some Done]), Some (Par [Some Done, Some (Par [Some Done])])])"
  by simp

subsection \<open>Promise.all\<close>

text \<open>
  The result is the list of the values exactly when nothing was rejected, and a reason of one
  of the rejected promises otherwise.
\<close>

lemma rejections_Nil:
  "[e. Inl e \<leftarrow> settled] = [] \<Longrightarrow> settled = map Inr [v. Inr v \<leftarrow> settled]"
  by (induction settled) (auto split: sum.splits)

lemma rejections_mem: "e \<in> set [e. Inl e \<leftarrow> settled] \<longleftrightarrow> Inl e \<in> set settled"
  by (induction settled) (auto split: sum.splits)

lemma promise_all_Inr:
  assumes "promise_all first settled = Inr vs"
  shows "settled = map Inr vs"
  using assms rejections_Nil [of settled]
  by (auto simp: promise_all_def Let_def split: if_splits)

lemma promise_all_Inl:
  assumes "promise_all first settled = Inl e"
  shows "Inl e \<in> set settled"
proof -
  let ?reasons = "[e. Inl e \<leftarrow> settled]"
  from assms have ne: "?reasons \<noteq> []" and e: "e = ?reasons ! (first ?reasons mod length ?reasons)"
    by (auto simp: promise_all_def Let_def split: if_splits)
  from ne have "first ?reasons mod length ?reasons < length ?reasons" by simp
  then have "e \<in> set ?reasons" unfolding e by (rule nth_mem)
  then show ?thesis by (simp only: rejections_mem)
qed

lemma in_set_not_Nil: "x \<in> set xs \<Longrightarrow> xs \<noteq> []"
  by (cases xs) simp_all

lemma promise_all_rejected:
  assumes "Inl e \<in> set settled"
  shows "\<exists>e'. promise_all first settled = Inl e'"
proof -
  from assms have "e \<in> set [e. Inl e \<leftarrow> settled]" by (simp only: rejections_mem)
  then have "[e. Inl e \<leftarrow> settled] \<noteq> []" by (rule in_set_not_Nil)
  then show ?thesis by (simp add: promise_all_def Let_def)
qed

subsection \<open>The event assembler\<close>

lemma step_nth:
  assumes "i < length outs"
  shows "map (\<lambda>(index, output). f output index) (enumerate 0 outs) ! i = f (outs ! i) i"
  using assms by (simp add: nth_enumerate_eq)

lemma prepareNewPushEvents_steps:
  assumes "prepareNewPushEvents race imports account program initEffect outs = Inr evs"
  shows "length evs = length outs"
    and "i < length outs \<Longrightarrow>
         pushEventOf race imports account program initEffect outs (outs ! i) i = Inr (evs ! i)"
proof -
  let ?f = "pushEventOf race imports account program initEffect outs"
  let ?settled = "map (\<lambda>(index, output). ?f output index) (enumerate 0 outs)"
  from assms have eq: "?settled = map Inr evs"
    unfolding prepareNewPushEvents_def by (rule promise_all_Inr)
  then have "length ?settled = length (map Inr evs :: (error + NewPushEvent) list)" by simp
  then show len: "length evs = length outs" by simp
  assume i: "i < length outs"
  from i have at: "?settled ! i = ?f (outs ! i) i" by (rule step_nth)
  from i len have "(map Inr evs :: (error + NewPushEvent) list) ! i = Inr (evs ! i)" by simp
  with eq at show "?f (outs ! i) i = Inr (evs ! i)" by simp
qed

lemma prepareNewPushEvents_Inl:
  assumes "prepareNewPushEvents race imports account program initEffect outs = Inl e"
  shows "\<exists>j<length outs. pushEventOf race imports account program initEffect outs (outs ! j) j = Inl e"
proof -
  let ?f = "pushEventOf race imports account program initEffect outs"
  let ?settled = "map (\<lambda>(index, output). ?f output index) (enumerate 0 outs)"
  from assms have "Inl e \<in> set ?settled"
    unfolding prepareNewPushEvents_def by (rule promise_all_Inl)
  then obtain j where j: "j < length ?settled" and at: "?settled ! j = Inl e"
    by (auto simp: in_set_conv_nth)
  from j have j': "j < length outs" by simp
  then have "?settled ! j = ?f (outs ! j) j" by (rule step_nth)
  with at j' show ?thesis by auto
qed

lemma prepareNewPushEvents_step_fails:
  assumes "j < length outs"
    and "pushEventOf race imports account program initEffect outs (outs ! j) j = Inl e"
  shows "\<exists>e'. prepareNewPushEvents race imports account program initEffect outs = Inl e'"
proof -
  let ?f = "pushEventOf race imports account program initEffect outs"
  let ?settled = "map (\<lambda>(index, output). ?f output index) (enumerate 0 outs)"
  from assms(1) have "j < length ?settled" by simp
  then have mem: "?settled ! j \<in> set ?settled" by (rule nth_mem)
  from assms(1) have "?settled ! j = ?f (outs ! j) j" by (rule step_nth)
  with assms(2) mem have "Inl e \<in> set ?settled" by (simp only:)
  then show ?thesis unfolding prepareNewPushEvents_def by (rule promise_all_rejected)
qed

lemma pushEventOf_Inr:
  assumes "pushEventOf race imports account program initEffect outs output index = Inr ev"
  shows "\<exists>callStackId. getCallStackId (effect output) = Inr callStackId \<and>
           eventId ev = programId program @ '':'' @ callStackId"
    and "actionEffectToPushTrigger account (prevEffectOf initEffect outs index) = Inr (Some (trigger ev))"
    and "recurring ev = False"
    and "pushMessage ev =
           (if index = length outs - 1
            then Some \<lparr> title = action_queue_push_notification_title (strings imports),
                        body = action_queue_push_notification_body (strings imports) \<rparr>
            else None)"
  using assms
  by (auto simp: pushEventOf_def Let_def split: sum.splits option.splits)

lemma pushEventOf_unsupported:
  assumes "actionEffectToPushTrigger account (prevEffectOf initEffect outs index) = Inr None"
  shows "\<exists>e. pushEventOf race imports account program initEffect outs output index = Inl e"
    and "getCallStackId (effect output) = Inr callStackId \<Longrightarrow>
         promise_all (race (Suc index)) (map (broadcastTxOf imports account) (output_broadcastTxs output)) = Inr txs \<Longrightarrow>
         pushEventOf race imports account program initEffect outs output index =
           Inl (unsupportedEffect (prevEffectOf initEffect outs index))"
  using assms
  by (auto simp: pushEventOf_def Let_def split: sum.splits option.splits)

lemmas demo_defs =
  demo_race_def demo_imports_def demo_program_def demo_tx_def demo_outputs_def
  demo_message_def demo_events_def demo_account_def demo_wallet_def

lemma demo_run: "prepareNewPushEvents demo_race demo_imports demo_account demo_program (TxConfs 1 ''w1'' ''t1'') demo_outputs = Inr demo_events"
  by (simp add: demo_defs prepareNewPushEvents_def pushEventOf_def promise_all_def enumerate_eq_zip
      broadcastTxOf_def prevEffectOf_def numberToString.simps digit_def upt_rec)

text \<open>
  C5. When \<open>prepareNewPushEvents\<close> succeeds it returns one event for each output, in the
  order of the outputs. The trigger of the event at \<open>i\<close> is the conversion of \<open>initEffect\<close>
  when \<open>i = 0\<close> and of the effect of the output at \<open>i - 1\<close> otherwise; its \<open>eventId\<close> is
  the program id, a colon and the call-stack identifier of the effect of the output at \<open>i\<close>.
\<close>

theorem prepareNewPushEvents_events:
  assumes "prepareNewPushEvents race imports account program initEffect outs = Inr evs"
    and "i < length outs"
  shows "length evs = length outs \<and>
         actionEffectToPushTrigger account (if i = 0 then initEffect else effect (outs ! (i - 1))) =
           Inr (Some (trigger (evs ! i))) \<and>
         (\<exists>callStackId. getCallStackId (effect (outs ! i)) = Inr callStackId \<and>
            eventId (evs ! i) = programId program @ '':'' @ callStackId)"
proof -
  from assms have step:
    "pushEventOf race imports account program initEffect outs (outs ! i) i = Inr (evs ! i)"
    by (rule prepareNewPushEvents_steps(2))
  have prev: "prevEffectOf initEffect outs i = (if i = 0 then initEffect else effect (outs ! (i - 1)))"
    by (simp add: prevEffectOf_def)
  from assms(1) have "length evs = length outs" by (rule prepareNewPushEvents_steps(1))
  moreover from pushEventOf_Inr(2) [OF step] prev
  have "actionEffectToPushTrigger account (if i = 0 then initEffect else effect (outs ! (i - 1))) =
          Inr (Some (trigger (evs ! i)))"
    by (simp only:)
  moreover note pushEventOf_Inr(1) [OF step]
  ultimately show ?thesis by (intro conjI)
qed

theorem prepareNewPushEvents_events_witness:
  "prepareNewPushEvents demo_race demo_imports demo_account demo_program (TxConfs 1 ''w1'' ''t1'')
     demo_outputs = Inr demo_events \<and>
   (1::nat) < length demo_outputs \<and>
   length demo_events = length demo_outputs \<and>
   actionEffectToPushTrigger demo_account (effect (demo_outputs ! 0)) =
     Inr (Some (trigger (demo_events ! 1))) \<and>
   getCallStackId (effect (demo_outputs ! 1)) = Inr ''seq_1'' \<and>
   eventId (demo_events ! 1) = ''p1:seq_1''"
proof -
  have one: "(1::nat) < length demo_outputs" by (simp add: demo_outputs_def)
  show ?thesis
    using prepareNewPushEvents_events [OF demo_run one] demo_run one
    by (simp add: demo_outputs_def demo_events_def demo_program_def numberToString.simps digit_def)
qed

text \<open>
  C7. When \<open>prepareNewPushEvents\<close> succeeds on a list of outputs that is not empty, the last
  event carries the push message, no other event carries one, and no event is recurring.
\<close>

theorem prepareNewPushEvents_pushMessage:
  assumes "prepareNewPushEvents race imports account program initEffect outs = Inr evs"
    and "outs \<noteq> []"
  shows "evs \<noteq> [] \<and>
         pushMessage (last evs) =
           Some \<lparr> title = action_queue_push_notification_title (strings imports),
                  body = action_queue_push_notification_body (strings imports) \<rparr> \<and>
         (\<forall>i<length evs. (i \<noteq> length evs - 1 \<longrightarrow> pushMessage (evs ! i) = None) \<and>
                          recurring (evs ! i) = False)"
proof -
  from assms(1) have len: "length evs = length outs" by (rule prepareNewPushEvents_steps(1))
  with assms(2) have ne: "evs \<noteq> []" by auto
  have step: "pushEventOf race imports account program initEffect outs (outs ! i) i = Inr (evs ! i)"
    if "i < length evs" for i
    using assms(1) that len by (simp add: prepareNewPushEvents_steps(2))
  have msg: "pushMessage (evs ! i) =
               (if i = length evs - 1
                then Some \<lparr> title = action_queue_push_notification_title (strings imports),
                            body = action_queue_push_notification_body (strings imports) \<rparr>
                else None)"
    if "i < length evs" for i
    using pushEventOf_Inr(4) [OF step [OF that]] len by simp
  have rec: "recurring (evs ! i) = False" if "i < length evs" for i
    using pushEventOf_Inr(3) [OF step [OF that]] .
  from ne have "length evs - 1 < length evs" by simp
  from msg [OF this] ne
  have "pushMessage (last evs) =
          Some \<lparr> title = action_queue_push_notification_title (strings imports),
                 body = action_queue_push_notification_body (strings imports) \<rparr>"
    by (simp add: last_conv_nth)
  with ne msg rec show ?thesis by simp
qed

theorem prepareNewPushEvents_pushMessage_witness:
  "prepareNewPushEvents demo_race demo_imports demo_account demo_program (TxConfs 1 ''w1'' ''t1'')
     demo_outputs = Inr demo_events \<and>
   demo_outputs \<noteq> [] \<and>
   pushMessage (demo_events ! 0) = None \<and> pushMessage (demo_events ! 1) = None \<and>
   pushMessage (demo_events ! 2) = Some demo_message \<and>
   recurring (demo_events ! 0) = False \<and> recurring (demo_events ! 1) = False \<and>
   recurring (demo_events ! 2) = False"
proof -
  have ne: "demo_outputs \<noteq> []" by (simp add: demo_outputs_def)
  show ?thesis
    using prepareNewPushEvents_pushMessage [OF demo_run ne] demo_run ne
    by (simp add: demo_events_def)
qed

text \<open>
  C6. When the conversion of the previous effect of a step yields nothing,
  \<open>prepareNewPushEvents\<close> fails, with the error of one of its failing steps, and returns no
  list of events. The step itself fails with the unsupported-effect error when its call-stack
  identifier and its transactions are computed, which the step does first; a step whose own
  effect is a \<open>par\<close> with a \<open>null\<close> child fails with the null-effect error instead.
\<close>

theorem prepareNewPushEvents_unsupported_effect:
  assumes "i < length outs"
    and "actionEffectToPushTrigger account (prevEffectOf initEffect outs i) = Inr None"
  shows "(\<exists>e j. prepareNewPushEvents race imports account program initEffect outs = Inl e \<and>
            j < length outs \<and>
            pushEventOf race imports account program initEffect outs (outs ! j) j = Inl e) \<and>
         (getCallStackId (effect (outs ! i)) = Inr callStackId \<and>
          promise_all (race (Suc i))
            (map (broadcastTxOf imports account) (output_broadcastTxs (outs ! i))) = Inr txs \<longrightarrow>
            pushEventOf race imports account program initEffect outs (outs ! i) i =
              Inl (unsupportedEffect (prevEffectOf initEffect outs i)))"
proof -
  from pushEventOf_unsupported(1) [OF assms(2)]
  obtain e where "pushEventOf race imports account program initEffect outs (outs ! i) i = Inl e"
    by blast
  with assms(1)
  obtain e' where "prepareNewPushEvents race imports account program initEffect outs = Inl e'"
    using prepareNewPushEvents_step_fails by blast
  then have "\<exists>e j. prepareNewPushEvents race imports account program initEffect outs = Inl e \<and>
      j < length outs \<and>
      pushEventOf race imports account program initEffect outs (outs ! j) j = Inl e"
    using prepareNewPushEvents_Inl by blast
  then show ?thesis
    using pushEventOf_unsupported(2) [OF assms(2)] by blast
qed

theorem prepareNewPushEvents_unsupported_effect_witness:
  "(0::nat) < length demo_outputs \<and>
   actionEffectToPushTrigger demo_account (prevEffectOf Done demo_outputs 0) = Inr None \<and>
   getCallStackId (effect (demo_outputs ! 0)) = Inr ''price-level'' \<and>
   promise_all (demo_race (Suc 0))
     (map (broadcastTxOf demo_imports demo_account) (output_broadcastTxs (demo_outputs ! 0))) =
     Inr [BroadcastTx ''bitcoin'' ''0a0b''] \<and>
   pushEventOf demo_race demo_imports demo_account demo_program Done demo_outputs (demo_outputs ! 0) 0 =
     Inl (Error ''Unsupported effect type done in conversion to PushTrigger'') \<and>
   prepareNewPushEvents demo_race demo_imports demo_account demo_program Done demo_outputs =
     Inl (Error ''Unsupported effect type done in conversion to PushTrigger'')"
proof -
  have len: "(0::nat) < length demo_outputs" by (simp add: demo_outputs_def)
  have none: "actionEffectToPushTrigger demo_account (prevEffectOf Done demo_outputs 0) = Inr None"
    by (simp add: prevEffectOf_def)
  show ?thesis
    using prepareNewPushEvents_unsupported_effect
      [OF len none, of demo_race demo_imports demo_program "''price-level''"
         "[BroadcastTx ''bitcoin'' ''0a0b'']"]
    by (simp add: demo_defs prepareNewPushEvents_def pushEventOf_def promise_all_def enumerate_eq_zip
        broadcastTxOf_def prevEffectOf_def unsupportedEffect_def numberToString.simps digit_def upt_rec)
qed

theorem prepareNewPushEvents_unsupported_effect_counterexample:
  "actionEffectToPushTrigger demo_account
     (prevEffectOf Done [\<lparr> effect = Par [None], output_broadcastTxs = [] \<rparr>] 0) = Inr None \<and>
   prepareNewPushEvents demo_race demo_imports demo_account demo_program Done
     [\<lparr> effect = Par [None], output_broadcastTxs = [] \<rparr>] = Inl (Error CALLSTACK_NULL_EFFECT) \<and>
   Error CALLSTACK_NULL_EFFECT \<noteq> unsupportedEffect Done"
  by (simp add: prepareNewPushEvents_def pushEventOf_def promise_all_def enumerate_eq_zip
      prevEffectOf_def unsupportedEffect_def CALLSTACK_NULL_EFFECT_def)

subsection \<open>The push server client\<close>

lemma eventStatusMap_snoc:
  "eventStatusMap (evs @ [ev]) = (eventStatusMap evs)(status_eventId ev \<mapsto> ev)"
  by (simp add: eventStatusMap_def)

lemma eventStatusMap_dom: "dom (eventStatusMap evs) = status_eventId ` set evs"
proof (induction evs rule: rev_induct)
  case Nil
  show ?case by (simp add: eventStatusMap_def)
next
  case (snoc ev evs)
  have "dom (eventStatusMap (evs @ [ev])) = insert (status_eventId ev) (dom (eventStatusMap evs))"
    unfolding eventStatusMap_snoc by (simp only: dom_fun_upd option.distinct if_False)
  with snoc show ?case
    by (simp only: set_append list.set image_Un image_insert image_empty Un_insert_right
        Un_empty_right)
qed

lemma isEffective_iff:
  "isEffective m ids \<longleftrightarrow>
     (\<forall>i\<in>set ids. \<exists>st. m i = Some st \<and> (state st = ''triggered'' \<or> state st = ''complete''))"
  by (auto simp: isEffective_def list_all_iff split: option.splits)

text \<open>
  C8. On a successful response whose payload is accepted, \<open>checkPushEvents\<close> returns true
  exactly when every requested event id has a status in the status map of the response and the
  state of that status is \<open>triggered\<close> or \<open>complete\<close>; an id the response does not have makes
  it return false.
\<close>

theorem checkPushEvents_effective:
  assumes "asBase64 imports (rootLoginId account) = Inr lid"
    and "fetch imports (pushServerUri imports @ ''/v2/login'')
           (PushRequestBody (AIRBITZ_API_KEY imports) (deviceId imports) lid None) = Inr response"
    and "ok response"
    and "asLoginPayload imports (text_body response) = Inr payload"
  shows "(\<exists>b. checkPushEvents imports account ids = Inr b \<and>
            (b \<longleftrightarrow> (\<forall>i\<in>set ids. \<exists>st. eventStatusMap (events payload) i = Some st \<and>
                        (state st = ''triggered'' \<or> state st = ''complete'')))) \<and>
         ((\<exists>i\<in>set ids. i \<notin> status_eventId ` set (events payload)) \<longrightarrow>
            checkPushEvents imports account ids = Inr False)"
proof -
  from assms have run:
    "checkPushEvents imports account ids = Inr (isEffective (eventStatusMap (events payload)) ids)"
    by (simp add: checkPushEvents_def)
  have missing: "\<not> isEffective (eventStatusMap (events payload)) ids"
    if "\<exists>i\<in>set ids. i \<notin> status_eventId ` set (events payload)"
  proof -
    from that obtain i where i: "i \<in> set ids" "i \<notin> dom (eventStatusMap (events payload))"
      by (auto simp only: eventStatusMap_dom)
    then have "eventStatusMap (events payload) i = None" by auto
    with i(1) show ?thesis unfolding isEffective_iff by force
  qed
  from run missing show ?thesis by (auto simp: isEffective_iff)
qed

theorem checkPushEvents_effective_witness:
  "asBase64 demo_imports (rootLoginId demo_account) = Inr ''login'' \<and>
   ok \<lparr> ok = True, status = 200, text_body = ''events'' \<rparr> \<and>
   checkPushEvents demo_imports demo_account [''p1:seq_1'', ''p1:done''] = Inr True \<and>
   checkPushEvents demo_imports demo_account [''p1:done'', ''p1:noop''] = Inr False \<and>
   checkPushEvents demo_imports demo_account [''p1:done'', ''p1:unixtime''] = Inr False"
proof -
  let ?response = "\<lparr> ok = True, status = 200, text_body = ''events'' \<rparr>"
  let ?payload = "\<lparr> events = [EventStatus ''p1:seq_1'' ''pending'',
                                EventStatus ''p1:done'' ''complete'',
                                EventStatus ''p1:noop'' ''pending'',
                                EventStatus ''p1:seq_1'' ''triggered''] \<rparr>"
  have a: "asBase64 demo_imports (rootLoginId demo_account) = Inr ''login''"
    by (simp add: demo_imports_def demo_account_def)
  have f: "fetch demo_imports (pushServerUri demo_imports @ ''/v2/login'')
             (PushRequestBody (AIRBITZ_API_KEY demo_imports) (deviceId demo_imports) ''login'' None) =
           Inr ?response"
    by (simp add: demo_imports_def)
  have k: "ok ?response" by simp
  have p: "asLoginPayload demo_imports (text_body ?response) = Inr ?payload"
    by (simp add: demo_imports_def)
  show ?thesis
    using checkPushEvents_effective [OF a f k p, of "[''p1:seq_1'', ''p1:done'']"]
      checkPushEvents_effective [OF a f k p, of "[''p1:done'', ''p1:noop'']"]
      checkPushEvents_effective [OF a f k p, of "[''p1:done'', ''p1:unixtime'']"] a
    by (auto simp: eventStatusMap_def)
qed

text \<open>
  C9. On a response that is not successful \<open>uploadPushEvents\<close> fails with
  \<open>Request failed with <status>\<close>, whatever the cleaner of the error body does with the body:
  the cleaned body, or its absence, only goes to the console. On a successful response it
  returns without an error.
\<close>

theorem uploadPushEvents_request_failed:
  assumes "asBase64 imports (rootLoginId account) = Inr lid"
    and "fetch imports (pushServerUri imports @ ''/v2/login/update'')
           (PushRequestBody (AIRBITZ_API_KEY imports) (deviceId imports) lid
              (Some (LoginUpdatePayload newPushEvents []))) = Inr response"
  shows "(\<not> ok response \<longrightarrow>
            uploadPushEvents (imports\<lparr>asErrorResponse := cleaner\<rparr>) account newPushEvents =
              ([FailedPushServerRequest (text_body response) (asMaybe cleaner (text_body response))],
               Inl (Error (''Request failed with '' @ numberToString (status response))))) \<and>
         (ok response \<longrightarrow>
            uploadPushEvents (imports\<lparr>asErrorResponse := cleaner\<rparr>) account newPushEvents = ([], Inr ()))"
  using assms by (simp add: uploadPushEvents_def requestFailed_def Let_def)

theorem uploadPushEvents_request_failed_witness:
  "asMaybe (\<lambda>raw. Inl (Error ''Expected an error response'')) ''<html>'' = (None :: ErrorResponse option) \<and>
   uploadPushEvents (demo_imports\<lparr>asErrorResponse := \<lambda>raw. Inl (Error ''Expected an error response'')\<rparr>)
       demo_account demo_events =
     ([FailedPushServerRequest ''<html>'' None], Inl (Error ''Request failed with 500'')) \<and>
   uploadPushEvents (demo_imports\<lparr>asErrorResponse := Inr\<rparr>) demo_account demo_events =
     ([FailedPushServerRequest ''<html>'' (Some ''<html>'')], Inl (Error ''Request failed with 500'')) \<and>
   uploadPushEvents
       (demo_imports\<lparr>fetch := \<lambda>uri request. Inr \<lparr> ok = True, status = 200, text_body = ''{}'' \<rparr>,
                      asErrorResponse := Inr\<rparr>)
       demo_account demo_events = ([], Inr ())"
proof -
  let ?bad = "\<lparr> ok = False, status = 500, text_body = ''<html>'' \<rparr>"
  let ?good = "\<lparr> ok = True, status = 200, text_body = ''{}'' \<rparr>"
  let ?served = "demo_imports\<lparr>fetch := \<lambda>uri request. Inr ?good\<rparr>"
  have a: "asBase64 demo_imports (rootLoginId demo_account) = Inr ''login''"
    by (simp add: demo_imports_def demo_account_def)
  have f: "fetch demo_imports (pushServerUri demo_imports @ ''/v2/login/update'')
             (PushRequestBody (AIRBITZ_API_KEY demo_imports) (deviceId demo_imports) ''login''
                (Some (LoginUpdatePayload demo_events []))) = Inr ?bad"
    by (simp add: demo_imports_def)
  have a': "asBase64 ?served (rootLoginId demo_account) = Inr ''login''"
    by (simp add: demo_imports_def demo_account_def)
  have f': "fetch ?served (pushServerUri ?served @ ''/v2/login/update'')
             (PushRequestBody (AIRBITZ_API_KEY ?served) (deviceId ?served) ''login''
                (Some (LoginUpdatePayload demo_events []))) = Inr ?good"
    by simp
  have n: "numberToString 500 = ''500''" by (simp add: numberToString.simps digit_def)
  show ?thesis
    using uploadPushEvents_request_failed
        [OF a f, of "\<lambda>raw. Inl (Error ''Expected an error response'')"]
      uploadPushEvents_request_failed [OF a f, of Inr]
      uploadPushEvents_request_failed [OF a' f', of Inr]
    by (simp add: asMaybe_def n)
qed

end
